theory Spec2Isabelle
  imports Complex_Main "HOL-Library.AList" "HOL-Library.Multiset"
begin

section \<open>Python strings\<close>

text \<open>
  A Python \<open>str\<close> is modelled as a \<open>string\<close>; a \<open>char\<close> stands for a code point
  below 256. The exceptions the modelled code can raise are values of \<open>py_error\<close>, and a
  computation that may raise returns \<open>py_error + 'a\<close> with \<open>Inl\<close> for the exception.
\<close>

datatype py_error = ValueError | KeyError | IndexError

definition NL :: char where
  "NL = CHR 0x0A"

definition DQ :: char where
  "DQ = CHR 0x22"

text \<open>
  \<open>s.split(sep)\<close> for a non-empty separator: the occurrences of \<open>sep\<close> are found from the
  left and do not overlap; the result has one more element than there are occurrences.
  \<open>cur\<close> holds the characters read since the last separator. (Python raises ValueError
  for an empty separator; every call below passes a literal, non-empty one.)
\<close>

function split_from :: "string \<Rightarrow> string \<Rightarrow> string \<Rightarrow> string list" where
  "split_from sep cur [] = [cur]"
| "split_from sep cur (c # cs) =
     (if sep \<noteq> [] \<and> take (length sep) (c # cs) = sep
      then cur # split_from sep [] (drop (length sep) (c # cs))
      else split_from sep (cur @ [c]) cs)"
  by pat_completeness auto
termination
  by (relation "measure (\<lambda>(sep, cur, s). length s)") auto

definition str_split :: "string \<Rightarrow> string \<Rightarrow> string list" where
  "str_split s sep = split_from sep [] s"

text \<open>\<open>str.isspace\<close> on the code points below 256, as \<open>s.strip()\<close> uses it.\<close>

definition is_space :: "char \<Rightarrow> bool" where
  "is_space c = ((of_char c :: nat) \<in> {9, 10, 11, 12, 13, 28, 29, 30, 31, 32, 133, 160})"

text \<open>\<open>s.strip(chars)\<close> removes the leading and trailing characters that are in \<open>chars\<close>.\<close>

definition strip_where :: "(char \<Rightarrow> bool) \<Rightarrow> string \<Rightarrow> string" where
  "strip_where p s = rev (dropWhile p (rev (dropWhile p s)))"

definition str_strip :: "string \<Rightarrow> string" where
  "str_strip s = strip_where is_space s"

definition str_strip_chars :: "string \<Rightarrow> string \<Rightarrow> string" where
  "str_strip_chars s chars = strip_where (\<lambda>c. c \<in> set chars) s"

section \<open>The record parser: \<open>pgn_to_dataframe\<close>\<close>

text \<open>
  \<open>game_info\<close> is the dict built for one game. A Python dict keeps its keys in insertion
  order and an assignment to a key already present replaces the value in place, which is
  \<open>AList.update\<close> on an association list.
\<close>

type_synonym game_info = "(string \<times> string) list"

text \<open>
  The body of the loop over the lines of a game (lines 69 to 71). A line without
  \<open>[\<close> or without \<open>]\<close> is passed over (\<open>Inr None\<close>). Otherwise
  \<open>line.split("[")[1].split("]")[0].split(" \"")\<close> is unpacked into \<open>key, value\<close>, which
  raises ValueError unless the last split has exactly two parts.
\<close>

definition tag_of_line :: "string \<Rightarrow> py_error + (string \<times> string) option" where
  "tag_of_line line =
     (if CHR ''['' \<in> set line \<and> CHR '']'' \<in> set line then
        (case str_split line ''['' of
           _ # inner # _ \<Rightarrow>
             (case str_split inner '']'' of
                body # _ \<Rightarrow>
                  (case str_split body [CHR '' '', DQ] of
                     [key, value] \<Rightarrow> Inr (Some (str_strip key, str_strip_chars value [CHR '' '', DQ]))
                   | _ \<Rightarrow> Inl ValueError)
              | [] \<Rightarrow> Inl IndexError)
         | _ \<Rightarrow> Inl IndexError)
      else Inr None)"

text \<open>The loop \<open>for line in lines\<close>, threading the dict \<open>game_info\<close>.\<close>

fun read_lines :: "game_info \<Rightarrow> string list \<Rightarrow> py_error + game_info" where
  "read_lines info [] = Inr info"
| "read_lines info (line # lines) =
     (case tag_of_line line of
        Inl e \<Rightarrow> Inl e
      | Inr None \<Rightarrow> read_lines info lines
      | Inr (Some (key, value)) \<Rightarrow> read_lines (AList.update key value info) lines)"

text \<open>The loop \<open>for game in game_lines\<close>, threading the list \<open>games_data\<close>.\<close>

fun read_games :: "game_info list \<Rightarrow> string list \<Rightarrow> py_error + game_info list" where
  "read_games games_data [] = Inr games_data"
| "read_games games_data (game # games) =
     (case read_lines [] (str_split game [NL]) of
        Inl e \<Rightarrow> Inl e
      | Inr info \<Rightarrow> read_games (games_data @ [info]) games)"

text \<open>
  \<open>pgn_to_dataframe\<close>: the text is split at \<open>"\n\n\n"\<close>, the last segment is dropped
  (\<open>game_lines[:-1]\<close>) and every other segment becomes one row. The data frame is modelled
  by the list of dicts it is built from.
\<close>

definition block_separator :: string where
  "block_separator = [NL, NL, NL]"

definition game_lines :: "string \<Rightarrow> string list" where
  "game_lines pgn_file = butlast (str_split pgn_file block_separator)"

definition pgn_to_dataframe :: "string \<Rightarrow> py_error + game_info list" where
  "pgn_to_dataframe pgn_file = read_games [] (game_lines pgn_file)"

section \<open>Data frames\<close>

text \<open>
  \<open>pd.DataFrame(games_data)\<close> has one row per dict and one column per key that occurs in
  some dict, in the order of first appearance; a cell whose row has no such key is NaN
  (\<open>None\<close> here). \<open>df.empty\<close> is true when there is no row or no column,
  \<open>df[name]\<close> raises KeyError when there is no such column.
\<close>

definition first_occurrences :: "'a list \<Rightarrow> 'a list" where
  "first_occurrences xs = rev (remdups (rev xs))"

definition df_columns :: "game_info list \<Rightarrow> string list" where
  "df_columns df = first_occurrences (concat (map (map fst) df))"

definition df_empty :: "game_info list \<Rightarrow> bool" where
  "df_empty df = (df = [] \<or> df_columns df = [])"

definition df_column :: "game_info list \<Rightarrow> string \<Rightarrow> py_error + string option list" where
  "df_column df name =
     (if name \<in> set (df_columns df) then Inr (map (\<lambda>row. map_of row name) df)
      else Inl KeyError)"

text \<open>
  \<open>Series.value_counts()\<close> drops NaN, counts each distinct value and returns the counts
  in descending order. pandas sorts the table of counts with \<open>sort_values\<close>, whose
  default algorithm is not documented as stable, so the sort is a parameter \<open>srt\<close> of
  the model; \<open>sorts_descending\<close> is what the documentation promises of it.
\<close>

fun dropna :: "'a option list \<Rightarrow> 'a list" where
  "dropna [] = []"
| "dropna (None # xs) = dropna xs"
| "dropna (Some v # xs) = v # dropna xs"

definition count_table :: "string option list \<Rightarrow> (string \<times> nat) list" where
  "count_table col =
     (let vals = dropna col in map (\<lambda>v. (v, count_list vals v)) (first_occurrences vals))"

type_synonym sorter = "(string \<times> nat) list \<Rightarrow> (string \<times> nat) list"

definition sorts_descending :: "sorter \<Rightarrow> bool" where
  "sorts_descending srt =
     (\<forall>xs. mset (srt xs) = mset xs \<and> sorted_wrt (\<lambda>a b. snd b \<le> snd a) (srt xs))"

definition value_counts :: "sorter \<Rightarrow> string option list \<Rightarrow> (string \<times> nat) list" where
  "value_counts srt col = srt (count_table col)"

text \<open>
  One sort that meets the contract, used to run the model on concrete inputs: the
  stable sort by descending count.
\<close>

definition stable_sort_desc :: sorter where
  "stable_sort_desc xs = sort_key (\<lambda>p. - int (snd p)) xs"

section \<open>The ranked table: \<open>get_most_favorite_openings\<close>\<close>

definition top_n :: nat where
  "top_n = 5"

definition piece_colors :: "string list" where
  "piece_colors = [''white'', ''black'']"

record response =
  status_code :: int
  response_text :: string

record opening_row =
  game_mode :: string
  piece :: string
  opening_name :: string
  games_played :: nat

text \<open>Line 116: \<open>pgn_dataframe["Opening"].value_counts().head(top_n)\<close>.\<close>

definition top_openings :: "sorter \<Rightarrow> game_info list \<Rightarrow> py_error + (string \<times> nat) list" where
  "top_openings srt df =
     (case df_column df ''Opening'' of
        Inl e \<Rightarrow> Inl e
      | Inr col \<Rightarrow> Inr (take top_n (value_counts srt col)))"

text \<open>
  Lines 117 to 122: \<open>pd.DataFrame\<close> of a dict of four lists, which raises ValueError
  unless the four lists have the same length. The first two lists are
  \<open>[mode] * top_n\<close> and \<open>[color] * top_n\<close>.
\<close>

definition openings_df ::
  "string \<Rightarrow> string \<Rightarrow> (string \<times> nat) list \<Rightarrow> py_error + opening_row list" where
  "openings_df mode color top_openings_series =
     (let modes = replicate top_n mode;
          pieces = replicate top_n color;
          names = map fst top_openings_series;
          played = map snd top_openings_series
      in if length modes = length pieces \<and> length pieces = length names
            \<and> length names = length played
         then Inr (map (\<lambda>(m, p, n, c).
                     \<lparr>game_mode = m, piece = p, opening_name = n, games_played = c\<rparr>)
                   (zip modes (zip pieces (zip names played))))
         else Inl ValueError)"

text \<open>
  The body of the two loops for one mode and one color (lines 109 to 128).
  \<open>requests_get mode color\<close> is the response to the request for that pair; on a
  status other than 200 the code reports on the page and goes on.
\<close>

definition add_openings ::
  "sorter \<Rightarrow> (string \<Rightarrow> string \<Rightarrow> response) \<Rightarrow> opening_row list \<Rightarrow> string \<times> string
     \<Rightarrow> py_error + opening_row list" where
  "add_openings srt requests_get favorite_openings_df pair =
     (case pair of (mode, color) \<Rightarrow>
        let response = requests_get mode color in
        if status_code response = 200 then
          (case pgn_to_dataframe (response_text response) of
             Inl e \<Rightarrow> Inl e
           | Inr pgn_dataframe \<Rightarrow>
               if \<not> df_empty pgn_dataframe then
                 (case top_openings srt pgn_dataframe of
                    Inl e \<Rightarrow> Inl e
                  | Inr series \<Rightarrow>
                      (case openings_df mode color series of
                         Inl e \<Rightarrow> Inl e
                       | Inr rows \<Rightarrow> Inr (favorite_openings_df @ rows)))
               else Inr favorite_openings_df)
        else Inr favorite_openings_df)"

text \<open>The loops \<open>for mode in game_modes: for color in piece_colors\<close>, one pair at a time.\<close>

fun collect ::
  "sorter \<Rightarrow> (string \<Rightarrow> string \<Rightarrow> response) \<Rightarrow> opening_row list \<Rightarrow> (string \<times> string) list
     \<Rightarrow> py_error + opening_row list" where
  "collect srt requests_get favorite_openings_df [] = Inr favorite_openings_df"
| "collect srt requests_get favorite_openings_df (pair # pairs) =
     (case add_openings srt requests_get favorite_openings_df pair of
        Inl e \<Rightarrow> Inl e
      | Inr df \<Rightarrow> collect srt requests_get df pairs)"

definition mode_color_pairs :: "string list \<Rightarrow> (string \<times> string) list" where
  "mode_color_pairs game_modes = concat (map (\<lambda>mode. map (Pair mode) piece_colors) game_modes)"

definition get_most_favorite_openings ::
  "sorter \<Rightarrow> (string \<Rightarrow> string \<Rightarrow> response) \<Rightarrow> string list \<Rightarrow> py_error + opening_row list" where
  "get_most_favorite_openings srt requests_get game_modes =
     collect srt requests_get [] (mode_color_pairs game_modes)"

section \<open>The percentages of \<open>main\<close>\<close>

text \<open>
  Lines 284 to 292 for the selected mode. The entries of the \<open>metrics\<close> arrays are
  float64 numbers, modelled by the rationals they denote; an array entry is true in
  \<open>if\<close> when it is not zero.

  The result of a float64 operation is the exact result rounded to a representable
  number. The rounding \<open>fl\<close> is a parameter of the model, and \<open>float64_rounding\<close> is
  what IEEE 754 promises of it for results in the normal range, where the quotients
  and products of counts lie: a relative error of at most \<open>1 / 2 ^ 53\<close>.
\<close>

definition float64_rounding :: "(rat \<Rightarrow> rat) \<Rightarrow> bool" where
  "float64_rounding fl = (\<forall>x. \<bar>fl x - x\<bar> \<le> \<bar>x\<bar> / 2 ^ 53)"

text \<open>
  \<open>round(x, ndigits)\<close> on a float gives the multiple of \<open>1 / 10 ^ ndigits\<close> closest to the
  number that \<open>x\<close> denotes, the even multiple when two are equally close, and the
  f-string prints that decimal. \<open>python_round\<close> is the number printed.
\<close>

definition round_half_even :: "rat \<Rightarrow> int" where
  "round_half_even y =
     (let f = \<lfloor>y\<rfloor>; r = y - of_int f
      in if r < 1 / 2 then f else if 1 / 2 < r then f + 1 else if even f then f else f + 1)"

definition python_round :: "rat \<Rightarrow> nat \<Rightarrow> rat" where
  "python_round x ndigits = of_int (round_half_even (x * 10 ^ ndigits)) / 10 ^ ndigits"

text \<open>
  The expression \<open>round(float(outcome / game_played * 100), 1)\<close>, and the calls
  \<open>col.metric(label, value)\<close> in order: \<open>Some x\<close> when the value is the text of the
  number \<open>x\<close> followed by a percent sign, \<open>None\<close> for \<open>value = None\<close>.
\<close>

definition percent :: "(rat \<Rightarrow> rat) \<Rightarrow> rat \<Rightarrow> rat \<Rightarrow> rat" where
  "percent fl outcome game_played = python_round (fl (fl (outcome / game_played) * 100)) 1"

definition percent_metrics ::
  "(rat \<Rightarrow> rat) \<Rightarrow> rat \<Rightarrow> rat \<Rightarrow> rat \<Rightarrow> rat \<Rightarrow> (string \<times> rat option) list" where
  "percent_metrics fl game_played wins draws losses =
     (if game_played \<noteq> 0 then
        [(''Win %'', Some (percent fl wins game_played)),
         (''Draw %'', Some (percent fl draws game_played)),
         (''Loss %'', Some (percent fl losses game_played))]
      else
        [(''Win %'', None), (''Draw %'', None), (''Loss %'', None)])"

text \<open>
  What the specification asks of a percentage: \<open>p\<close> is \<open>x\<close> rounded to \<open>n\<close> decimal
  places when \<open>p\<close> is a multiple of \<open>1 / 10 ^ n\<close> and no multiple is closer to \<open>x\<close>.
\<close>

definition rounded_to :: "nat \<Rightarrow> rat \<Rightarrow> rat \<Rightarrow> bool" where
  "rounded_to n x p = ((\<exists>k :: int. p = of_int k / 10 ^ n) \<and> \<bar>p - x\<bar> \<le> 1 / (2 * 10 ^ n))"

text \<open>
  One rounding within the contract, used to run the model: every result is too large
  by the whole relative error allowed.
\<close>

definition fl_upward :: "rat \<Rightarrow> rat" where
  "fl_upward x = x + \<bar>x\<bar> / 2 ^ 53"

section \<open>Inputs for running the model\<close>

text \<open>
  An export of seven games with six distinct openings, ending with the separator, and
  the responses of a server that has these games for white and nothing else.
\<close>

definition seven_games :: string where
  \<open>seven_games =
     ''[Opening "Italian Game"]'' @ [NL] @ ''[Result "1-0"]'' @ block_separator
     @ ''[Opening "Sicilian Defense"]'' @ block_separator
     @ ''[Opening "Italian Game"]'' @ [NL] @ ''[Result "0-1"]'' @ block_separator
     @ ''[Opening "French Defense"]'' @ block_separator
     @ ''[Opening "English Opening"]'' @ block_separator
     @ ''[Opening "Dutch Defense"]'' @ block_separator
     @ ''[Opening "Slav Defense"]'' @ block_separator\<close>

definition white_games :: "string \<Rightarrow> string \<Rightarrow> response" where
  "white_games mode color =
     (if color = ''white'' then \<lparr>status_code = 200, response_text = seven_games\<rparr>
      else if color = ''black'' then \<lparr>status_code = 200, response_text = ''''\<rparr>
      else \<lparr>status_code = 404, response_text = ''''\<rparr>)"

text \<open>The responses of a server that has one game for every mode and color.\<close>

definition one_game :: "string \<Rightarrow> string \<Rightarrow> response" where
  \<open>one_game mode color =
     \<lparr>status_code = 200, response_text = ''[Opening "Italian Game"]'' @ block_separator\<rparr>\<close>

text \<open>
  The responses of a server that has the seven games for white and, for black, one game
  with a bracketed line that is no tag, or one game without an opening.
\<close>

definition malformed_for_black :: "string \<Rightarrow> string \<Rightarrow> response" where
  \<open>malformed_for_black mode color =
     (if color = ''white'' then \<lparr>status_code = 200, response_text = seven_games\<rparr>
      else \<lparr>status_code = 200,
             response_text = ''[Opening "Italian Game"]'' @ [NL] @ ''[Result]''
                             @ block_separator\<rparr>)\<close>

definition no_opening_for_black :: "string \<Rightarrow> string \<Rightarrow> response" where
  \<open>no_opening_for_black mode color =
     (if color = ''white'' then \<lparr>status_code = 200, response_text = seven_games\<rparr>
      else \<lparr>status_code = 200, response_text = ''[Result "1-0"]'' @ block_separator\<rparr>)\<close>

section \<open>Properties of the record parser\<close>

lemma read_lines_append:
  "read_lines info (xs @ ys) =
     (case read_lines info xs of Inl e \<Rightarrow> Inl e | Inr info' \<Rightarrow> read_lines info' ys)"
  by (induction xs arbitrary: info) (auto split: sum.splits option.splits)

lemma read_lines_skip:
  assumes "tag_of_line line = Inr None"
  shows "read_lines info (before @ line # after) = read_lines info (before @ after)"
  using assms by (simp add: read_lines_append split: sum.splits)

lemma read_games_append:
  "read_games acc (xs @ ys) =
     (case read_games acc xs of Inl e \<Rightarrow> Inl e | Inr acc' \<Rightarrow> read_games acc' ys)"
  by (induction xs arbitrary: acc) (auto split: sum.splits)

lemma unbracketed_line_passed_over:
  assumes "CHR ''['' \<notin> set line \<or> CHR '']'' \<notin> set line"
  shows "tag_of_line line = Inr None"
  using assms by (auto simp: tag_of_line_def)

text \<open>Lines that do not assign to \<open>k\<close> leave the value stored under \<open>k\<close> as it was.\<close>

lemma read_lines_keeps_key:
  assumes "read_lines info lines = Inr r"
    and "\<forall>l \<in> set lines. \<forall>v. tag_of_line l \<noteq> Inr (Some (k, v))"
  shows "map_of r k = map_of info k"
  using assms
proof (induction lines arbitrary: info)
  case Nil
  then show ?case by simp
next
  case (Cons l ls)
  show ?case
  proof (cases "tag_of_line l")
    case (Inl e)
    with Cons.prems show ?thesis by simp
  next
    case (Inr t)
    show ?thesis
    proof (cases t)
      case None
      with Inr Cons show ?thesis by simp
    next
      case (Some kv)
      obtain k' v' where kv: "kv = (k', v')" by (cases kv)
      with Some Inr Cons.prems have ne: "k' \<noteq> k" by auto
      from Some Inr kv Cons.prems have "read_lines (AList.update k' v' info) ls = Inr r" by simp
      with Cons.IH Cons.prems have "map_of r k = map_of (AList.update k' v' info) k" by simp
      with ne show ?thesis by (simp add: update_conv')
    qed
  qed
qed

lemma read_lines_last_wins:
  assumes "read_lines info (before @ line # after) = Inr r"
    and "tag_of_line line = Inr (Some (k, v))"
    and "\<forall>l \<in> set after. \<forall>v'. tag_of_line l \<noteq> Inr (Some (k, v'))"
  shows "map_of r k = Some v"
proof -
  from assms(1) obtain i where i: "read_lines info before = Inr i"
    and rest: "read_lines i (line # after) = Inr r"
    by (auto simp: read_lines_append split: sum.splits)
  from rest assms(2) have "read_lines (AList.update k v i) after = Inr r" by simp
  from read_lines_keeps_key[OF this assms(3)] show ?thesis by (simp add: update_conv')
qed

text \<open>A successful parse appends one row per game, in order.\<close>

lemma read_games_rows:
  assumes "read_games acc gs = Inr df"
  shows "\<exists>rs. df = acc @ rs \<and> length rs = length gs \<and>
           (\<forall>i < length gs. read_lines [] (str_split (gs ! i) [NL]) = Inr (rs ! i))"
  using assms
proof (induction gs arbitrary: acc)
  case Nil
  then show ?case by simp
next
  case (Cons g gs)
  from Cons.prems obtain info where info: "read_lines [] (str_split g [NL]) = Inr info"
    and rest: "read_games (acc @ [info]) gs = Inr df"
    by (auto split: sum.splits)
  from Cons.IH[OF rest] obtain rs where rs: "df = (acc @ [info]) @ rs" "length rs = length gs"
    "\<forall>i < length gs. read_lines [] (str_split (gs ! i) [NL]) = Inr (rs ! i)" by blast
  have "\<forall>i < length (g # gs). read_lines [] (str_split ((g # gs) ! i) [NL]) = Inr ((info # rs) ! i)"
    using info rs(3) by (auto simp: nth_Cons split: nat.splits)
  with rs(1,2) show ?case by (intro exI[of _ "info # rs"]) simp
qed

lemma pgn_to_dataframe_rows:
  assumes "pgn_to_dataframe pgn_file = Inr df"
  shows "length df = length (game_lines pgn_file)"
    and "i < length df \<Longrightarrow> read_lines [] (str_split (game_lines pgn_file ! i) [NL]) = Inr (df ! i)"
  using read_games_rows[OF assms[unfolded pgn_to_dataframe_def]] by auto

text \<open>
  The number of rows is the number of segments of the split less one, whatever the last
  segment holds.
\<close>

lemma pgn_to_dataframe_length:
  assumes "pgn_to_dataframe pgn_file = Inr df"
  shows "length df = length (str_split pgn_file block_separator) - 1"
  using pgn_to_dataframe_rows(1)[OF assms] by (simp add: game_lines_def)

text \<open>
  The parsing raises only at a line that has both brackets and does not split into a
  key and a value; the other cases of the model's error type do not occur.
\<close>

lemma split_from_nonempty: "split_from sep cur s \<noteq> []"
  by (induction sep cur s rule: split_from.induct) auto

lemma split_from_two_parts:
  "c \<in> set s \<Longrightarrow> \<exists>a b rest. split_from [c] cur s = a # b # rest"
proof (induction s arbitrary: cur)
  case Nil
  then show ?case by simp
next
  case (Cons x xs)
  show ?case
  proof (cases "x = c")
    case True
    obtain b rest where "split_from [c] [] xs = b # rest"
      using split_from_nonempty[of "[c]" "[]" xs] by (cases "split_from [c] [] xs") auto
    with True show ?thesis by simp
  next
    case False
    with Cons.prems have "c \<in> set xs" by simp
    from Cons.IH[OF this, of "cur @ [x]"] False show ?thesis by simp
  qed
qed

lemma tag_of_line_Inl:
  assumes "tag_of_line line = Inl e"
  shows "e = ValueError \<and> CHR ''['' \<in> set line \<and> CHR '']'' \<in> set line"
proof -
  from assms have br: "CHR ''['' \<in> set line \<and> CHR '']'' \<in> set line"
    by (auto simp: tag_of_line_def split: if_splits)
  then obtain a inner rest where s1: "str_split line ''['' = a # inner # rest"
    using split_from_two_parts[of "CHR ''[''" line "[]"] by (auto simp: str_split_def)
  obtain body rest' where s2: "str_split inner '']'' = body # rest'"
    using split_from_nonempty[of "'']''" "[]" inner]
    by (cases "str_split inner '']''") (auto simp: str_split_def)
  from assms br s1 s2 have "e = ValueError"
    by (auto simp: tag_of_line_def split: list.splits)
  with br show ?thesis by simp
qed

lemma read_lines_Inl:
  assumes "read_lines info lines = Inl e"
  shows "\<exists>l \<in> set lines. tag_of_line l = Inl e"
  using assms
  by (induction lines arbitrary: info) (auto split: sum.splits option.splits)

lemma read_games_Inl:
  assumes "read_games acc games = Inl e"
  shows "\<exists>g \<in> set games. read_lines [] (str_split g [NL]) = Inl e"
  using assms
  by (induction games arbitrary: acc) (auto split: sum.splits)

lemma pgn_to_dataframe_Inl:
  assumes "pgn_to_dataframe pgn_file = Inl e"
  shows "e = ValueError \<and>
         (\<exists>g \<in> set (game_lines pgn_file). \<exists>l \<in> set (str_split g [NL]).
            CHR ''['' \<in> set l \<and> CHR '']'' \<in> set l \<and> tag_of_line l = Inl ValueError)"
proof -
  from assms have "read_games [] (game_lines pgn_file) = Inl e"
    by (simp only: pgn_to_dataframe_def)
  from read_games_Inl[OF this] obtain g where g: "g \<in> set (game_lines pgn_file)"
    and "read_lines [] (str_split g [NL]) = Inl e"
    by blast
  then obtain l where l: "l \<in> set (str_split g [NL])" and t: "tag_of_line l = Inl e"
    using read_lines_Inl by blast
  from tag_of_line_Inl[OF t] t g l show ?thesis by blast
qed

text \<open>
  C1. The claim: a text whose last segment after the split is not empty still has that
  segment parsed, so a text without a final separator gives as many records as the same
  text with the separator appended. The code drops the last segment whatever it holds:
  a text of one game and no final separator parses to no record, and to one record once
  the separator is appended.
\<close>

theorem last_segment_dropped:
  \<open>pgn_to_dataframe ''[Opening "Italian Game"]'' = Inr [] \<and>
   pgn_to_dataframe (''[Opening "Italian Game"]'' @ block_separator)
     = Inr [[(''Opening'', ''Italian Game'')]]\<close>
  by code_simp

text \<open>
  C2. The claim: a malformed tag line, also one whose bracketed content does not split
  into a key and a quoted value, is skipped and never aborts the parsing. The code
  skips only the lines that lack a bracket. For a line with both brackets whose content
  does not split at \<open> "\<close> into two parts the unpacking at line 70 raises ValueError,
  which nothing catches: no record is returned, also not for the tag already read, a
  move line with a bracketed comment does the same, and
  \<open>get_most_favorite_openings\<close> loses the rows it had collected for the other pairs.
\<close>

theorem malformed_tag_line_aborts:
  \<open>pgn_to_dataframe (''[Opening "Italian Game"]'' @ [NL] @ ''[Result]'' @ block_separator)
     = Inl ValueError \<and>
   pgn_to_dataframe (''[Opening "Italian Game"]'' @ [NL] @ [NL]
                     @ ''1. e4 { [%eval 0.17] } 1... e5'' @ block_separator)
     = Inl ValueError \<and>
   get_most_favorite_openings stable_sort_desc malformed_for_black [''blitz'']
     = Inl ValueError\<close>
  by code_simp

text \<open>
  C9. In every block, the record maps a key to the value of the last recognised tag
  line with that key: if \<open>line\<close> assigns \<open>value\<close> to \<open>key\<close> and no later line of the
  block assigns to \<open>key\<close>, the record of the block holds \<open>value\<close> under \<open>key\<close>,
  whatever the earlier lines assigned.
\<close>

theorem last_occurrence_wins:
  assumes "pgn_to_dataframe pgn_file = Inr df"
    and "i < length df"
    and "str_split (game_lines pgn_file ! i) [NL] = before @ line # after"
    and "tag_of_line line = Inr (Some (key, value))"
    and "\<forall>l \<in> set after. \<forall>v. tag_of_line l \<noteq> Inr (Some (key, v))"
  shows "map_of (df ! i) key = Some value"
proof -
  from pgn_to_dataframe_rows(2)[OF assms(1,2)] assms(3)
  have "read_lines [] (before @ line # after) = Inr (df ! i)" by simp
  from read_lines_last_wins[OF this assms(4,5)] show ?thesis .
qed

theorem last_occurrence_wins_witness:
  \<open>pgn_to_dataframe (''[Opening "Italian Game"]'' @ [NL] @ ''[Opening "Sicilian Defense"]''
                     @ [NL] @ ''[Result "1-0"]'' @ block_separator)
     = Inr [[(''Opening'', ''Sicilian Defense''), (''Result'', ''1-0'')]] \<and>
   0 < length [[(''Opening'', ''Sicilian Defense''), (''Result'', ''1-0'')]] \<and>
   str_split (game_lines (''[Opening "Italian Game"]'' @ [NL] @ ''[Opening "Sicilian Defense"]''
                          @ [NL] @ ''[Result "1-0"]'' @ block_separator) ! 0) [NL]
     = [''[Opening "Italian Game"]''] @ ''[Opening "Sicilian Defense"]'' # [''[Result "1-0"]''] \<and>
   tag_of_line ''[Opening "Sicilian Defense"]'' = Inr (Some (''Opening'', ''Sicilian Defense'')) \<and>
   tag_of_line ''[Result "1-0"]'' = Inr (Some (''Result'', ''1-0'')) \<and>
   map_of ([[(''Opening'', ''Sicilian Defense''), (''Result'', ''1-0'')]] ! 0) ''Opening''
     = Some ''Sicilian Defense''\<close>
proof -
  have a: \<open>pgn_to_dataframe (''[Opening "Italian Game"]'' @ [NL]
                             @ ''[Opening "Sicilian Defense"]'' @ [NL] @ ''[Result "1-0"]''
                             @ block_separator)
     = Inr [[(''Opening'', ''Sicilian Defense''), (''Result'', ''1-0'')]]\<close>
    by code_simp
  have b: \<open>0 < length [[(''Opening'', ''Sicilian Defense''), (''Result'', ''1-0'')]]\<close>
    by simp
  have c: \<open>str_split (game_lines (''[Opening "Italian Game"]'' @ [NL]
                                  @ ''[Opening "Sicilian Defense"]'' @ [NL] @ ''[Result "1-0"]''
                                  @ block_separator) ! 0) [NL]
     = [''[Opening "Italian Game"]''] @ ''[Opening "Sicilian Defense"]'' # [''[Result "1-0"]'']\<close>
    by code_simp
  have d: \<open>tag_of_line ''[Opening "Sicilian Defense"]''
     = Inr (Some (''Opening'', ''Sicilian Defense''))\<close>
    by code_simp
  have r: \<open>tag_of_line ''[Result "1-0"]'' = Inr (Some (''Result'', ''1-0''))\<close>
    by code_simp
  have e: \<open>\<forall>l \<in> set [''[Result "1-0"]'']. \<forall>v. tag_of_line l \<noteq> Inr (Some (''Opening'', v))\<close>
    by (simp add: r)
  have g: \<open>map_of ([[(''Opening'', ''Sicilian Defense''), (''Result'', ''1-0'')]] ! 0) ''Opening''
     = Some ''Sicilian Defense''\<close>
    by (rule last_occurrence_wins [OF a b c d e])
  show ?thesis
    by (intro conjI a b c d r g)
qed

section \<open>Properties of the aggregation\<close>

lemma sorter_set: "sorts_descending srt \<Longrightarrow> set (srt xs) = set xs"
  unfolding sorts_descending_def by (metis set_mset_mset)

lemma sorter_sum: "sorts_descending srt \<Longrightarrow> sum_list (map snd (srt xs)) = sum_list (map snd xs)"
proof -
  assume "sorts_descending srt"
  then have "mset (srt xs) = mset xs" by (simp add: sorts_descending_def)
  then have "mset (map snd (srt xs)) = mset (map snd xs)" by (metis mset_map)
  then show ?thesis by (metis sum_mset_sum_list)
qed

lemma stable_sort_desc_sorts: "sorts_descending stable_sort_desc"
proof -
  have "sorted_wrt (\<lambda>a b. snd b \<le> snd a) (sort_key (\<lambda>p. - int (snd p)) xs)"
    for xs :: "(string \<times> nat) list"
  proof -
    have "sorted (map (\<lambda>p. - int (snd p)) (sort_key (\<lambda>p. - int (snd p)) xs))"
      by (rule sorted_sort_key)
    then show ?thesis
      by (simp add: sorted_map sorted_wrt_iff_nth_less)
  qed
  then show ?thesis
    by (simp add: sorts_descending_def stable_sort_desc_def)
qed

lemma set_first_occurrences [simp]: "set (first_occurrences xs) = set xs"
  by (simp add: first_occurrences_def)

lemma distinct_first_occurrences [simp]: "distinct (first_occurrences xs)"
  by (simp add: first_occurrences_def)

lemma count_dropna: "count_list (dropna col) v = count_list col (Some v)"
  by (induction col rule: dropna.induct) auto

lemma set_dropna: "v \<in> set (dropna col) \<longleftrightarrow> Some v \<in> set col"
  by (induction col rule: dropna.induct) auto

lemma length_dropna: "length (dropna col) \<le> length col"
  by (induction col rule: dropna.induct) auto

lemma count_table_mem:
  "(v, n) \<in> set (count_table col) \<longleftrightarrow> Some v \<in> set col \<and> n = count_list col (Some v)"
  by (auto simp: count_table_def Let_def count_dropna set_dropna)

text \<open>The counts of the distinct values add up to the number of values that are not NaN.\<close>

lemma sum_count_table: "sum_list (map snd (count_table col)) = length (dropna col)"
proof -
  have "sum_list (map snd (count_table col))
      = sum_list (map (count_list (dropna col)) (first_occurrences (dropna col)))"
    by (simp add: count_table_def Let_def comp_def)
  also have "\<dots> = sum (count_list (dropna col)) (set (dropna col))"
    by (simp add: sum_list_distinct_conv_sum_set)
  also have "\<dots> = length (dropna col)"
    by (rule sum_count_set) simp_all
  finally show ?thesis .
qed

lemma sum_list_take_le: "sum_list (take n (xs :: nat list)) \<le> sum_list xs"
proof -
  have "sum_list xs = sum_list (take n xs) + sum_list (drop n xs)"
    by (metis append_take_drop_id sum_list_append)
  then show ?thesis by simp
qed

lemma column_exists:
  "name \<in> set (df_columns df) \<longleftrightarrow> (\<exists>row \<in> set df. map_of row name \<noteq> None)"
  by (auto simp: df_columns_def map_of_eq_None_iff)

lemma top_openings_Inr:
  assumes "top_openings srt df = Inr series"
  shows "series = take top_n (srt (count_table (map (\<lambda>row. map_of row ''Opening'') df)))"
  using assms
  by (auto simp: top_openings_def df_column_def value_counts_def split: if_splits sum.splits)

lemma top_openings_column:
  assumes "\<exists>row \<in> set df. map_of row ''Opening'' \<noteq> None"
  shows "top_openings srt df
           = Inr (take top_n (srt (count_table (map (\<lambda>row. map_of row ''Opening'') df))))"
  using assms by (simp add: top_openings_def df_column_def value_counts_def column_exists)

lemma top_openings_KeyError:
  assumes "\<not> (\<exists>row \<in> set df. map_of row ''Opening'' \<noteq> None)"
  shows "top_openings srt df = Inl KeyError"
  using assms by (simp add: top_openings_def df_column_def column_exists)

lemma dropna_filter:
  "dropna (map f (filter (\<lambda>x. f x \<noteq> None) xs)) = dropna (map f xs)"
  by (induction xs) auto

lemma count_list_map_filter: "count_list (map f xs) y = length (filter (\<lambda>x. f x = y) xs)"
  by (induction xs) auto

lemma count_table_filter:
  "count_table (map f (filter (\<lambda>x. f x \<noteq> None) xs)) = count_table (map f xs)"
  unfolding count_table_def dropna_filter ..

text \<open>Every entry of the series is a value of the column with the number of its occurrences.\<close>

lemma top_openings_mem:
  assumes "sorts_descending srt" and "top_openings srt df = Inr series"
    and "(name, n) \<in> set series"
  shows "Some name \<in> set (map (\<lambda>row. map_of row ''Opening'') df)
         \<and> n = count_list (map (\<lambda>row. map_of row ''Opening'') df) (Some name)"
proof -
  from top_openings_Inr[OF assms(2)] assms(3)
  have "(name, n) \<in> set (srt (count_table (map (\<lambda>row. map_of row ''Opening'') df)))"
    by (auto dest: in_set_takeD)
  then have "(name, n) \<in> set (count_table (map (\<lambda>row. map_of row ''Opening'') df))"
    by (simp add: sorter_set[OF assms(1)])
  then show ?thesis by (simp only: count_table_mem)
qed

text \<open>
  With the stable sort, the entries of equal count stay in the order of the table of
  counts, which is the order of first occurrence in the column. This is a property of
  \<open>stable_sort_desc\<close>; \<open>sorts_descending\<close> does not give it.
\<close>

lemma stable_sort_desc_ties:
  "filter (\<lambda>p. snd p = k) (value_counts stable_sort_desc col)
     = filter (\<lambda>p. snd p = k) (count_table col)"
proof -
  have "filter (\<lambda>p. - int (snd p) = - int k) (sort_key (\<lambda>p. - int (snd p)) (count_table col))
      = filter (\<lambda>p. - int (snd p) = - int k) (count_table col)"
    by (rule sort_key_stable)
  then show ?thesis
    by (simp add: value_counts_def stable_sort_desc_def)
qed

section \<open>Properties of the table\<close>

lemma openings_df_Inr:
  assumes "openings_df mode color series = Inr rows"
  shows "length series = top_n"
    and "rows = map (\<lambda>(n, c). \<lparr>game_mode = mode, piece = color, opening_name = n,
                                games_played = c\<rparr>) series"
proof -
  from assms show len: "length series = top_n"
    by (simp add: openings_df_def Let_def split: if_splits)
  have "zip (replicate top_n mode) (zip (replicate top_n color) (zip (map fst series) (map snd series)))
      = map (\<lambda>p. (mode, color, p)) series"
    by (simp add: zip_replicate1 zip_map_fst_snd len)
  with assms len show "rows = map (\<lambda>(n, c). \<lparr>game_mode = mode, piece = color, opening_name = n,
                                games_played = c\<rparr>) series"
    by (auto simp: openings_df_def Let_def)
qed

lemma openings_df_ValueError:
  assumes "length series \<noteq> top_n"
  shows "openings_df mode color series = Inl ValueError"
  using assms by (auto simp: openings_df_def Let_def)

text \<open>What a step of the loops can do to the table when it does not raise.\<close>

lemma add_openings_Inr:
  assumes "add_openings srt requests_get fav (mode, color) = Inr fav'"
  shows "fav' = fav \<or>
         (status_code (requests_get mode color) = 200 \<and>
          (\<exists>df series. pgn_to_dataframe (response_text (requests_get mode color)) = Inr df
             \<and> \<not> df_empty df \<and> top_openings srt df = Inr series \<and> length series = top_n
             \<and> fav' = fav @ map (\<lambda>(n, c). \<lparr>game_mode = mode, piece = color, opening_name = n,
                                              games_played = c\<rparr>) series))"
proof (cases "status_code (requests_get mode color) = 200")
  case False
  with assms show ?thesis by (simp add: add_openings_def Let_def)
next
  case ok: True
  show ?thesis
  proof (cases "pgn_to_dataframe (response_text (requests_get mode color))")
    case (Inl e)
    with assms ok show ?thesis by (simp add: add_openings_def Let_def)
  next
    case (Inr df)
    show ?thesis
    proof (cases "df_empty df")
      case True
      with assms ok Inr show ?thesis by (simp add: add_openings_def Let_def)
    next
      case False
      from assms ok Inr False obtain series rows
        where s: "top_openings srt df = Inr series"
          and r: "openings_df mode color series = Inr rows" and f: "fav' = fav @ rows"
        by (auto simp: add_openings_def Let_def split: sum.splits)
      from openings_df_Inr[OF r] f s Inr False ok show ?thesis by auto
    qed
  qed
qed

lemma collect_append:
  "collect srt requests_get fav (ps @ qs) =
     (case collect srt requests_get fav ps of Inl e \<Rightarrow> Inl e
      | Inr fav' \<Rightarrow> collect srt requests_get fav' qs)"
  by (induction ps arbitrary: fav) (auto split: sum.splits)

lemma collect_rows:
  assumes "collect srt requests_get fav pairs = Inr table" and "row \<in> set table"
  shows "row \<in> set fav \<or>
         (\<exists>df series. pgn_to_dataframe
                         (response_text (requests_get (game_mode row) (piece row))) = Inr df
            \<and> top_openings srt df = Inr series
            \<and> (opening_name row, games_played row) \<in> set series)"
  using assms
proof (induction pairs arbitrary: fav)
  case Nil
  then show ?case by simp
next
  case (Cons p ps)
  obtain mode color where p: "p = (mode, color)" by (cases p)
  from Cons.prems(1) obtain fav' where
    step: "add_openings srt requests_get fav (mode, color) = Inr fav'"
    and rest: "collect srt requests_get fav' ps = Inr table"
    by (auto simp: p split: sum.splits)
  from Cons.IH[OF rest Cons.prems(2)] show ?case
  proof
    assume "row \<in> set fav'"
    with add_openings_Inr[OF step] show ?thesis by auto
  next
    assume "\<exists>df series. pgn_to_dataframe
                         (response_text (requests_get (game_mode row) (piece row))) = Inr df
            \<and> top_openings srt df = Inr series
            \<and> (opening_name row, games_played row) \<in> set series"
    then show ?thesis by simp
  qed
qed

text \<open>
  A group with fewer than \<open>top_n\<close> distinct openings makes the step raise: the lists
  \<open>[mode] * top_n\<close> and \<open>[color] * top_n\<close> are longer than the series.
\<close>

lemma fewer_openings_ValueError:
  assumes "status_code (requests_get mode color) = 200"
    and "pgn_to_dataframe (response_text (requests_get mode color)) = Inr df"
    and "\<not> df_empty df"
    and "top_openings srt df = Inr series"
    and "length series < top_n"
  shows "add_openings srt requests_get fav (mode, color) = Inl ValueError"
  using assms by (simp add: add_openings_def Let_def openings_df_ValueError)

text \<open>
  C3. The claim: a corpus with fewer than five distinct openings gives all of them with
  their counts, without failing. Line 116 does compute the one opening of a corpus of
  one game, but the data frame built from it at lines 117 to 122 takes columns of
  length \<open>top_n\<close> for the mode and the color, and the call raises ValueError.
\<close>

theorem fewer_than_top_n_openings_raises:
  \<open>pgn_to_dataframe (''[Opening "Italian Game"]'' @ block_separator)
     = Inr [[(''Opening'', ''Italian Game'')]] \<and>
   top_openings stable_sort_desc [[(''Opening'', ''Italian Game'')]]
     = Inr [(''Italian Game'', 1)] \<and>
   get_most_favorite_openings stable_sort_desc one_game [''blitz''] = Inl ValueError\<close>
  by code_simp

text \<open>
  C4. The claim: records without the tag are left out of the counts and a corpus in
  which some or all records lack the tag still aggregates without error. When no
  record has the tag and some record has another tag, the data frame is not empty, so
  the test of line 115 lets it through, and it has no column \<open>Opening\<close>: line 116
  raises KeyError, and \<open>get_most_favorite_openings\<close> loses the rows it had collected
  for the other pairs.
\<close>

theorem no_opening_column_raises:
  \<open>pgn_to_dataframe (''[Result "1-0"]'' @ block_separator) = Inr [[(''Result'', ''1-0'')]] \<and>
   df_empty [[(''Result'', ''1-0'')]] = False \<and>
   top_openings stable_sort_desc [[(''Result'', ''1-0'')]] = Inl KeyError \<and>
   get_most_favorite_openings stable_sort_desc no_opening_for_black [''blitz'']
     = Inl KeyError\<close>
  by code_simp

text \<open>
  When at least one record has the tag, line 116 does what the claim says: it does not
  raise, it gives the same series as on the corpus without the records that lack the
  tag, and every count in it is the number of records with that opening.
\<close>

lemma opening_counts_skip_missing:
  assumes "sorts_descending srt"
    and "\<exists>row \<in> set df. map_of row ''Opening'' \<noteq> None"
  shows "\<exists>series. top_openings srt df = Inr series
           \<and> top_openings srt (filter (\<lambda>row. map_of row ''Opening'' \<noteq> None) df) = Inr series
           \<and> (\<forall>name n. (name, n) \<in> set series \<longrightarrow>
                 n = length (filter (\<lambda>row. map_of row ''Opening'' = Some name) df))"
proof -
  let ?has = "\<lambda>row :: game_info. map_of row ''Opening'' \<noteq> None"
  let ?series = "take top_n (srt (count_table (map (\<lambda>row. map_of row ''Opening'') df)))"
  have a: "top_openings srt df = Inr ?series"
    using assms(2) by (rule top_openings_column)
  from assms(2) have "\<exists>row \<in> set (filter ?has df). map_of row ''Opening'' \<noteq> None"
    by auto
  then have "top_openings srt (filter ?has df)
      = Inr (take top_n (srt (count_table (map (\<lambda>row. map_of row ''Opening'') (filter ?has df)))))"
    by (rule top_openings_column)
  then have b: "top_openings srt (filter ?has df) = Inr ?series"
    by (simp only: count_table_filter)
  have c: "n = length (filter (\<lambda>row. map_of row ''Opening'' = Some name) df)"
    if "(name, n) \<in> set ?series" for name n
    using top_openings_mem[OF assms(1) a that] by (simp only: count_list_map_filter)
  from a b c show ?thesis by blast
qed

text \<open>
  C5. Whatever the corpus of a group, the series that line 116 computes for it has at
  most \<open>top_n = 5\<close> entries, and its counts add up to at most the number of records of
  the corpus.
\<close>

theorem top_openings_bounded:
  assumes "sorts_descending srt" and "top_openings srt df = Inr series"
  shows "length series \<le> 5 \<and> sum_list (map snd series) \<le> length df"
proof -
  let ?col = "map (\<lambda>row. map_of row ''Opening'') df"
  have s: "series = take top_n (srt (count_table ?col))"
    using assms(2) by (rule top_openings_Inr)
  then have "length series \<le> 5" by (simp add: top_n_def)
  moreover have "sum_list (map snd series) \<le> sum_list (map snd (srt (count_table ?col)))"
    unfolding s take_map[symmetric] by (rule sum_list_take_le)
  then have "sum_list (map snd series) \<le> length (dropna ?col)"
    by (simp add: sorter_sum[OF assms(1)] sum_count_table)
  then have "sum_list (map snd series) \<le> length df"
    using length_dropna[of ?col] by simp
  ultimately show ?thesis by simp
qed

theorem top_openings_bounded_witness:
  \<open>pgn_to_dataframe seven_games
     = Inr [[(''Opening'', ''Italian Game''), (''Result'', ''1-0'')],
            [(''Opening'', ''Sicilian Defense'')],
            [(''Opening'', ''Italian Game''), (''Result'', ''0-1'')],
            [(''Opening'', ''French Defense'')],
            [(''Opening'', ''English Opening'')],
            [(''Opening'', ''Dutch Defense'')],
            [(''Opening'', ''Slav Defense'')]] \<and>
   top_openings stable_sort_desc
       [[(''Opening'', ''Italian Game''), (''Result'', ''1-0'')],
        [(''Opening'', ''Sicilian Defense'')],
        [(''Opening'', ''Italian Game''), (''Result'', ''0-1'')],
        [(''Opening'', ''French Defense'')],
        [(''Opening'', ''English Opening'')],
        [(''Opening'', ''Dutch Defense'')],
        [(''Opening'', ''Slav Defense'')]]
     = Inr [(''Italian Game'', 2), (''Sicilian Defense'', 1), (''French Defense'', 1),
            (''English Opening'', 1), (''Dutch Defense'', 1)] \<and>
   length [(''Italian Game'', 2 :: nat), (''Sicilian Defense'', 1), (''French Defense'', 1),
           (''English Opening'', 1), (''Dutch Defense'', 1)] \<le> 5 \<and>
   sum_list (map snd [(''Italian Game'', 2 :: nat), (''Sicilian Defense'', 1),
                      (''French Defense'', 1), (''English Opening'', 1), (''Dutch Defense'', 1)])
     \<le> length [[(''Opening'', ''Italian Game''), (''Result'', ''1-0'')],
               [(''Opening'', ''Sicilian Defense'')],
               [(''Opening'', ''Italian Game''), (''Result'', ''0-1'')],
               [(''Opening'', ''French Defense'')],
               [(''Opening'', ''English Opening'')],
               [(''Opening'', ''Dutch Defense'')],
               [(''Opening'', ''Slav Defense'')]]\<close>
proof -
  have p: \<open>pgn_to_dataframe seven_games
     = Inr [[(''Opening'', ''Italian Game''), (''Result'', ''1-0'')],
            [(''Opening'', ''Sicilian Defense'')],
            [(''Opening'', ''Italian Game''), (''Result'', ''0-1'')],
            [(''Opening'', ''French Defense'')],
            [(''Opening'', ''English Opening'')],
            [(''Opening'', ''Dutch Defense'')],
            [(''Opening'', ''Slav Defense'')]]\<close>
    by code_simp
  have t: \<open>top_openings stable_sort_desc
       [[(''Opening'', ''Italian Game''), (''Result'', ''1-0'')],
        [(''Opening'', ''Sicilian Defense'')],
        [(''Opening'', ''Italian Game''), (''Result'', ''0-1'')],
        [(''Opening'', ''French Defense'')],
        [(''Opening'', ''English Opening'')],
        [(''Opening'', ''Dutch Defense'')],
        [(''Opening'', ''Slav Defense'')]]
     = Inr [(''Italian Game'', 2), (''Sicilian Defense'', 1), (''French Defense'', 1),
            (''English Opening'', 1), (''Dutch Defense'', 1)]\<close>
    by code_simp
  note b = top_openings_bounded [OF stable_sort_desc_sorts t]
  show ?thesis
    by (intro conjI p t conjunct1[OF b] conjunct2[OF b])
qed

text \<open>
  C7. A pair whose response parses to no record adds no row and raises nothing: the
  step returns the table as it was, and the table of the whole call is the table of the
  call without that pair, so the rows of the other pairs are the same.
\<close>

theorem empty_corpus_no_rows:
  assumes "status_code (requests_get mode color) = 200"
    and "pgn_to_dataframe (response_text (requests_get mode color)) = Inr []"
    and "mode_color_pairs game_modes = ps @ (mode, color) # qs"
  shows "add_openings srt requests_get fav (mode, color) = Inr fav
         \<and> get_most_favorite_openings srt requests_get game_modes
             = collect srt requests_get [] (ps @ qs)"
proof -
  have step: "add_openings srt requests_get fav' (mode, color) = Inr fav'" for fav'
    using assms(1,2) by (simp add: add_openings_def Let_def df_empty_def)
  have "collect srt requests_get [] (ps @ (mode, color) # qs)
      = collect srt requests_get [] (ps @ qs)"
    by (simp add: collect_append step split: sum.splits)
  with step assms(3) show ?thesis
    by (simp add: get_most_favorite_openings_def)
qed

theorem empty_corpus_no_rows_witness:
  \<open>status_code (white_games ''blitz'' ''black'') = 200 \<and>
   pgn_to_dataframe (response_text (white_games ''blitz'' ''black'')) = Inr [] \<and>
   mode_color_pairs [''blitz''] = [(''blitz'', ''white'')] @ (''blitz'', ''black'') # [] \<and>
   add_openings stable_sort_desc white_games [] (''blitz'', ''black'') = Inr [] \<and>
   get_most_favorite_openings stable_sort_desc white_games [''blitz'']
     = collect stable_sort_desc white_games [] ([(''blitz'', ''white'')] @ [])\<close>
proof -
  have a: \<open>status_code (white_games ''blitz'' ''black'') = 200\<close>
    by code_simp
  have b: \<open>pgn_to_dataframe (response_text (white_games ''blitz'' ''black'')) = Inr []\<close>
    by code_simp
  have c: \<open>mode_color_pairs [''blitz''] = [(''blitz'', ''white'')] @ (''blitz'', ''black'') # []\<close>
    by code_simp
  note r = empty_corpus_no_rows [where requests_get = white_games and mode = "''blitz''"
      and color = "''black''" and srt = stable_sort_desc and fav = "[]", OF a b c]
  show ?thesis
    by (intro conjI a b c conjunct1[OF r] conjunct2[OF r])
qed

text \<open>
  C10. Every row of the returned table has a count of at least one, and the count is
  the number of records of the row's group whose opening is the row's opening: an
  opening that no record of the corpus has is in no row.
\<close>

theorem counts_positive:
  assumes "sorts_descending srt"
    and "get_most_favorite_openings srt requests_get game_modes = Inr table"
    and "row \<in> set table"
  shows "1 \<le> games_played row
         \<and> (\<exists>df. pgn_to_dataframe (response_text (requests_get (game_mode row) (piece row)))
                    = Inr df
               \<and> games_played row
                    = length (filter (\<lambda>r. map_of r ''Opening'' = Some (opening_name row)) df))"
proof -
  from collect_rows[OF assms(2)[unfolded get_most_favorite_openings_def] assms(3)]
  obtain df series where
    df: "pgn_to_dataframe (response_text (requests_get (game_mode row) (piece row))) = Inr df"
    and s: "top_openings srt df = Inr series"
    and m: "(opening_name row, games_played row) \<in> set series"
    by auto
  let ?col = "map (\<lambda>r. map_of r ''Opening'') df"
  from top_openings_mem[OF assms(1) s m]
  have occ: "Some (opening_name row) \<in> set ?col"
    and n: "games_played row = count_list ?col (Some (opening_name row))"
    by simp_all
  from occ have "count_list ?col (Some (opening_name row)) \<noteq> 0"
    by (simp only: count_list_0_iff not_not)
  with n have "1 \<le> games_played row" by simp
  moreover from n have "games_played row
      = length (filter (\<lambda>r. map_of r ''Opening'' = Some (opening_name row)) df)"
    by (simp only: count_list_map_filter)
  ultimately show ?thesis using df by blast
qed

theorem counts_positive_witness:
  \<open>get_most_favorite_openings stable_sort_desc white_games [''blitz'']
     = Inr [\<lparr>game_mode = ''blitz'', piece = ''white'', opening_name = ''Italian Game'',
              games_played = 2\<rparr>,
            \<lparr>game_mode = ''blitz'', piece = ''white'', opening_name = ''Sicilian Defense'',
              games_played = 1\<rparr>,
            \<lparr>game_mode = ''blitz'', piece = ''white'', opening_name = ''French Defense'',
              games_played = 1\<rparr>,
            \<lparr>game_mode = ''blitz'', piece = ''white'', opening_name = ''English Opening'',
              games_played = 1\<rparr>,
            \<lparr>game_mode = ''blitz'', piece = ''white'', opening_name = ''Dutch Defense'',
              games_played = 1\<rparr>] \<and>
   1 \<le> games_played \<lparr>game_mode = ''blitz'', piece = ''white'',
                        opening_name = ''Italian Game'', games_played = 2\<rparr>\<close>
proof -
  have t: \<open>get_most_favorite_openings stable_sort_desc white_games [''blitz'']
     = Inr [\<lparr>game_mode = ''blitz'', piece = ''white'', opening_name = ''Italian Game'',
              games_played = 2\<rparr>,
            \<lparr>game_mode = ''blitz'', piece = ''white'', opening_name = ''Sicilian Defense'',
              games_played = 1\<rparr>,
            \<lparr>game_mode = ''blitz'', piece = ''white'', opening_name = ''French Defense'',
              games_played = 1\<rparr>,
            \<lparr>game_mode = ''blitz'', piece = ''white'', opening_name = ''English Opening'',
              games_played = 1\<rparr>,
            \<lparr>game_mode = ''blitz'', piece = ''white'', opening_name = ''Dutch Defense'',
              games_played = 1\<rparr>]\<close>
    by code_simp
  have "\<lparr>game_mode = ''blitz'', piece = ''white'', opening_name = ''Italian Game'',
          games_played = 2\<rparr>
        \<in> set [\<lparr>game_mode = ''blitz'', piece = ''white'', opening_name = ''Italian Game'',
              games_played = 2\<rparr>,
            \<lparr>game_mode = ''blitz'', piece = ''white'', opening_name = ''Sicilian Defense'',
              games_played = 1\<rparr>,
            \<lparr>game_mode = ''blitz'', piece = ''white'', opening_name = ''French Defense'',
              games_played = 1\<rparr>,
            \<lparr>game_mode = ''blitz'', piece = ''white'', opening_name = ''English Opening'',
              games_played = 1\<rparr>,
            \<lparr>game_mode = ''blitz'', piece = ''white'', opening_name = ''Dutch Defense'',
              games_played = 1\<rparr>]"
    by (rule list.set_intros(1))
  note r = counts_positive [OF stable_sort_desc_sorts t this]
  show ?thesis
    by (intro conjI t conjunct1[OF r])
qed

section \<open>Properties of the percentages\<close>

lemma round_half_even_close: "\<bar>of_int (round_half_even y) - y\<bar> \<le> 1 / 2"
proof -
  have "of_int \<lfloor>y\<rfloor> \<le> y" and "y < of_int \<lfloor>y\<rfloor> + 1"
    by linarith+
  then show ?thesis
    by (auto simp: round_half_even_def Let_def)
qed

lemma python_round_close: "\<bar>python_round x 1 - x\<bar> \<le> 1 / 20"
proof -
  have "\<bar>of_int (round_half_even (x * 10)) - x * 10\<bar> \<le> 1 / 2"
    by (rule round_half_even_close)
  then show ?thesis
    by (simp add: python_round_def field_simps)
qed

lemma fl_upward_rounding: "float64_rounding fl_upward"
  by (simp add: float64_rounding_def fl_upward_def)

text \<open>The error of the division followed by the multiplication by 100.\<close>

lemma quotient_times_100_error:
  assumes "float64_rounding fl" and "0 \<le> a"
  shows "\<bar>fl (fl a * 100) - a * 100\<bar> \<le> a * 100 * (2 / 2 ^ 53 + 1 / 2 ^ 106)"
proof -
  define u :: rat where "u = 1 / 2 ^ 53"
  define b where "b = fl a"
  define d where "d = fl (b * 100)"
  have u: "0 \<le> u" by (simp add: u_def)
  have c: "\<bar>fl x - x\<bar> \<le> \<bar>x\<bar> * u" for x
    using assms(1) unfolding float64_rounding_def u_def by simp
  from c[of a] assms(2) have e1: "\<bar>b - a\<bar> \<le> a * u"
    by (simp add: b_def)
  with assms(2) have b: "\<bar>b\<bar> \<le> a + a * u" by linarith
  have "\<bar>d - b * 100\<bar> \<le> \<bar>b * 100\<bar> * u"
    unfolding d_def by (rule c)
  also have "\<bar>b * 100\<bar> * u = \<bar>b\<bar> * (100 * u)" by (simp add: abs_mult)
  also have "\<dots> \<le> (a + a * u) * (100 * u)"
    using b by (rule mult_right_mono) (simp add: u)
  finally have e2: "\<bar>d - b * 100\<bar> \<le> (a + a * u) * (100 * u)" .
  have "\<bar>b * 100 - a * 100\<bar> = \<bar>(b - a) * 100\<bar>"
    by (simp only: left_diff_distrib)
  also have "\<dots> = \<bar>b - a\<bar> * 100"
    by (simp only: abs_mult abs_numeral)
  also have "\<dots> \<le> a * u * 100"
    using e1 by (rule mult_right_mono) simp
  finally have e3: "\<bar>b * 100 - a * 100\<bar> \<le> a * u * 100" .
  have "\<bar>d - a * 100\<bar> = \<bar>(d - b * 100) + (b * 100 - a * 100)\<bar>"
    by simp
  also have "\<dots> \<le> \<bar>d - b * 100\<bar> + \<bar>b * 100 - a * 100\<bar>"
    by (rule abs_triangle_ineq)
  also have "\<dots> \<le> (a + a * u) * (100 * u) + a * u * 100"
    using e2 e3 by (rule add_mono)
  also have "\<dots> = a * 100 * (2 * u + u * u)" by (simp only: algebra_simps)
  also have "2 * u + u * u = 2 / 2 ^ 53 + 1 / 2 ^ 106" by (simp add: u_def)
  finally show ?thesis by (simp only: d_def b_def)
qed

text \<open>
  For counts up to \<open>10 ^ 12\<close> the float error is too small to move the result to a
  multiple of a tenth that is not nearest to the exact percentage.
\<close>

lemma percent_rounded:
  assumes fl: "float64_rounding fl"
    and g: "0 < g" and w0: "0 \<le> w" and w1: "w \<le> 10 ^ 12"
  shows "rounded_to 1 (of_int w / of_int g * 100) (percent fl (of_int w) (of_int g))"
proof -
  define a :: rat where "a = of_int w / of_int g"
  define d where "d = fl (fl a * 100)"
  define k where "k = round_half_even (d * 10)"
  define p :: rat where "p = of_int k / 10"
  have gpos: "0 < (of_int g :: rat)" using g by simp
  have a0: "0 \<le> a" using w0 g by (simp add: a_def)
  have p: "percent fl (of_int w) (of_int g) = p"
    by (simp add: percent_def python_round_def p_def k_def d_def a_def)
  have pd: "\<bar>p - d\<bar> \<le> 1 / 20"
    using python_round_close[of d] by (simp add: python_round_def p_def k_def)
  have dx: "\<bar>d - a * 100\<bar> \<le> a * 100 * (2 / 2 ^ 53 + 1 / 2 ^ 106)"
    unfolding d_def using fl a0 by (rule quotient_times_100_error)
  have ag: "a * of_int g = of_int w"
    using g by (simp add: a_def)
  have "\<bar>p - a * 100\<bar> \<le> 1 / 20 + a * 100 * (2 / 2 ^ 53 + 1 / 2 ^ 106)"
    using pd dx by linarith
  then have "\<bar>p - a * 100\<bar> * (20 * of_int g)
      \<le> (1 / 20 + a * 100 * (2 / 2 ^ 53 + 1 / 2 ^ 106)) * (20 * of_int g)"
    using gpos by (intro mult_right_mono) simp_all
  also have "\<dots> = of_int g + (a * of_int g) * (2000 * (2 / 2 ^ 53 + 1 / 2 ^ 106))"
    by (simp add: algebra_simps)
  also have "\<dots> = of_int g + of_int w * (2000 * (2 / 2 ^ 53 + 1 / 2 ^ 106))"
    by (simp only: ag)
  also have "\<dots> < of_int g + 1"
  proof -
    have "(of_int w :: rat) \<le> 10 ^ 12"
      using w1 by (metis of_int_le_iff of_int_numeral of_int_power)
    then have "(of_int w :: rat) * (2000 * (2 / 2 ^ 53 + 1 / 2 ^ 106))
        \<le> 10 ^ 12 * (2000 * (2 / 2 ^ 53 + 1 / 2 ^ 106))"
      by (intro mult_right_mono) simp_all
    also have "\<dots> < 1" by simp
    finally show ?thesis by simp
  qed
  finally have lt: "\<bar>p - a * 100\<bar> * (20 * of_int g) < of_int g + 1" .
  have "\<bar>p - a * 100\<bar> * (20 * of_int g) = \<bar>(p - a * 100) * (20 * of_int g)\<bar>"
    using gpos by (simp add: abs_mult)
  also have "(p - a * 100) * (20 * of_int g) = of_int (2 * k * g - 2000 * w)"
    using ag by (simp add: p_def algebra_simps)
  finally have eq: "\<bar>p - a * 100\<bar> * (20 * of_int g) = of_int \<bar>2 * k * g - 2000 * w\<bar>"
    by simp
  from lt have "(of_int \<bar>2 * k * g - 2000 * w\<bar> :: rat) < of_int (g + 1)"
    by (simp only: eq of_int_add of_int_1)
  then have "\<bar>2 * k * g - 2000 * w\<bar> < g + 1"
    by (simp only: of_int_less_iff)
  then have "\<bar>2 * k * g - 2000 * w\<bar> \<le> g"
    by simp
  then have "(of_int \<bar>2 * k * g - 2000 * w\<bar> :: rat) \<le> of_int g"
    by (simp only: of_int_le_iff)
  then have "\<bar>p - a * 100\<bar> * (20 * of_int g) \<le> of_int g"
    by (simp only: eq)
  then have "\<bar>p - a * 100\<bar> \<le> 1 / 20"
    using gpos by (simp add: field_simps)
  then show ?thesis
    unfolding rounded_to_def p a_def[symmetric] by (auto simp: p_def)
qed

text \<open>
  C8. When \<open>game_played\<close> is positive, every percentage shown is the outcome divided by
  \<open>game_played\<close>, times 100, rounded to one decimal place: a multiple of a tenth
  that is nearest to the exact percentage, for counts up to \<open>10 ^ 12\<close> and every
  float64 rounding. When \<open>game_played\<close> is zero the three metrics get no value at all,
  not a number.
\<close>

theorem percent_or_no_data:
  assumes "float64_rounding fl"
    and "0 < game_played"
    and "0 \<le> wins" and "wins \<le> 10 ^ 12"
    and "0 \<le> draws" and "draws \<le> 10 ^ 12"
    and "0 \<le> losses" and "losses \<le> 10 ^ 12"
  shows "(\<exists>w d l.
            percent_metrics fl (of_int game_played) (of_int wins) (of_int draws) (of_int losses)
              = [(''Win %'', Some w), (''Draw %'', Some d), (''Loss %'', Some l)]
            \<and> rounded_to 1 (of_int wins / of_int game_played * 100) w
            \<and> rounded_to 1 (of_int draws / of_int game_played * 100) d
            \<and> rounded_to 1 (of_int losses / of_int game_played * 100) l)
         \<and> percent_metrics fl 0 (of_int wins) (of_int draws) (of_int losses)
              = [(''Win %'', None), (''Draw %'', None), (''Loss %'', None)]"
proof -
  have "percent_metrics fl (of_int game_played) (of_int wins) (of_int draws) (of_int losses)
      = [(''Win %'', Some (percent fl (of_int wins) (of_int game_played))),
         (''Draw %'', Some (percent fl (of_int draws) (of_int game_played))),
         (''Loss %'', Some (percent fl (of_int losses) (of_int game_played)))]"
    using assms(2) by (simp add: percent_metrics_def)
  moreover have "rounded_to 1 (of_int wins / of_int game_played * 100)
                   (percent fl (of_int wins) (of_int game_played))"
    using assms(1,2,3,4) by (rule percent_rounded)
  moreover have "rounded_to 1 (of_int draws / of_int game_played * 100)
                   (percent fl (of_int draws) (of_int game_played))"
    using assms(1,2,5,6) by (rule percent_rounded)
  moreover have "rounded_to 1 (of_int losses / of_int game_played * 100)
                   (percent fl (of_int losses) (of_int game_played))"
    using assms(1,2,7,8) by (rule percent_rounded)
  moreover have "percent_metrics fl 0 (of_int wins) (of_int draws) (of_int losses)
      = [(''Win %'', None), (''Draw %'', None), (''Loss %'', None)]"
    by (simp add: percent_metrics_def)
  ultimately show ?thesis by blast
qed

theorem percent_or_no_data_witness:
  "percent_metrics fl_upward 3 1 1 1
     = [(''Win %'', Some (333 / 10)), (''Draw %'', Some (333 / 10)), (''Loss %'', Some (333 / 10))]
   \<and> rounded_to 1 (1 / 3 * 100) (333 / 10)
   \<and> percent_metrics fl_upward 0 1 1 1
     = [(''Win %'', None), (''Draw %'', None), (''Loss %'', None)]"
proof -
  have v: "percent_metrics fl_upward 3 1 1 1
     = [(''Win %'', Some (333 / 10)), (''Draw %'', Some (333 / 10)), (''Loss %'', Some (333 / 10))]"
    by code_simp
  from percent_or_no_data [OF fl_upward_rounding, of 3 1 1 1]
  obtain w d l where
    m: "percent_metrics fl_upward 3 1 1 1
          = [(''Win %'', Some w), (''Draw %'', Some d), (''Loss %'', Some l)]"
    and r: "rounded_to 1 (1 / 3 * 100) w"
    and z: "percent_metrics fl_upward 0 1 1 1
          = [(''Win %'', None), (''Draw %'', None), (''Loss %'', None)]"
    by auto
  from m v have "w = 333 / 10" by simp
  with r v z show ?thesis by simp
qed

end
